theory Spec2Isabelle
  imports Main "HOL-Library.Word"
begin

section \<open>Data model\<close>

text \<open>
  The two RPC handlers of \<^verbatim>\<open>src/rpc/bet.cpp\<close>, \<^verbatim>\<open>getmappingid\<close> and
  \<^verbatim>\<open>getmappingname\<close>, work on \<^verbatim>\<open>CMapping\<close> records kept in a
  \<^verbatim>\<open>mappingIndex_t\<close>, a \<^verbatim>\<open>std::map<uint32_t, CMapping>\<close>.  The handlers read and
  write the four fields below.  The class is declared in a header that is not part of
  the sources at hand: \<open>nId\<close> has the width of the map's key and of the specification's
  id (unsigned, 32 bits), \<open>nVersion\<close> is the specification's unsigned version, and the
  enumeration \<^verbatim>\<open>MappingTypes\<close> is the type parameter \<open>'ty\<close>.
\<close>

record 'ty CMapping =
  nMType :: 'ty
  nId :: "32 word"
  sName :: string
  nVersion :: "32 word"

text \<open>
  A \<^verbatim>\<open>std::map\<close> is iterated in ascending key order and holds every key once.  The
  index is modelled by that iteration sequence: the list of its (key, record) pairs.
  \<open>wf_index\<close> is the invariant of the container: keys strictly ascending (unsigned
  comparison of \<^verbatim>\<open>uint32_t\<close>).
\<close>

type_synonym 'ty mappingIndex_t = "(32 word \<times> 'ty CMapping) list"

definition wf_index :: "'ty mappingIndex_t \<Rightarrow> bool" where
  "wf_index idx = sorted_wrt (<) (map fst idx)"

text \<open>
  \<^verbatim>\<open>UniValue\<close> is the JSON value type of the RPC layer.  A number carries its value;
  the handlers only ever build one from \<^verbatim>\<open>(uint64_t) nId\<close>, a widening cast of an
  unsigned 32-bit integer, so the value is \<open>unat\<close> of the id.
\<close>

datatype UniValue =
    VNULL
  | VBOOL bool
  | VNUM nat
  | VSTR string
  | VARR "UniValue list"
  | VOBJ "(string \<times> UniValue) list"

text \<open>\<^verbatim>\<open>get_str()\<close> throws on a value that is not a string.\<close>

fun get_str :: "UniValue \<Rightarrow> string option" where
  "get_str (VSTR s) = Some s"
| "get_str _ = None"

text \<open>
  Everything the handlers throw.  The three \<^verbatim>\<open>std::runtime_error\<close>s of the bodies are
  named after what they report:
  \<^item> \<open>InvalidMappingType\<close>: "No mapping exist for the mapping index you provided."
  \<^item> \<open>IndexUnavailable\<close>: "No mapping saved for the mapping type you provided."
  \<^item> \<open>MappingNotFound\<close>: "Currently no mapping name exists for the mapping name you provided."

  \<open>HelpMessage\<close> is the usage text thrown on \<^verbatim>\<open>fHelp\<close> or fewer than two parameters,
  \<open>NotAString\<close> the exception of \<^verbatim>\<open>get_str()\<close>, \<open>StoiFailure\<close> the exception of
  \<^verbatim>\<open>std::stoi\<close>.
\<close>

datatype error =
    HelpMessage
  | NotAString
  | StoiFailure
  | InvalidMappingType
  | IndexUnavailable
  | MappingNotFound

section \<open>getmappingid\<close>

text \<open>The local variables of the scan loop of \<^verbatim>\<open>getmappingid\<close> (lines 60 to 82).\<close>

record scan_state =
  mapping :: "(string \<times> UniValue) list"
  mappingFound :: bool
  nFirstIndexFree :: "32 word"
  FirstIndexFreeFound :: bool

definition scan_init :: scan_state where
  "scan_init = \<lparr>mapping = [], mappingFound = False,
                 nFirstIndexFree = 0, FirstIndexFreeFound = False\<rparr>"

text \<open>
  One iteration of the loop body, for the entry \<open>it\<close> (\<open>fst it\<close> is \<^verbatim>\<open>it->first\<close>,
  \<open>snd it\<close> is \<^verbatim>\<open>it->second\<close>).  The log line has no effect on the result.
  \<^verbatim>\<open>nFirstIndexFree++\<close> is on \<^verbatim>\<open>unsigned int\<close> and wraps.
\<close>

definition scan_body ::
  "string \<Rightarrow> string \<Rightarrow> 32 word \<times> 'ty CMapping \<Rightarrow> scan_state \<Rightarrow> scan_state" where
  "scan_body mIndex name it s =
     (let s1 =
        (if \<not> mappingFound s then
           (if sName (snd it) = name then
              s\<lparr>mapping := mapping s @
                    [(''mapping-id'', VNUM (unat (nId (snd it)))),
                     (''exists'', VBOOL True),
                     (''mapping-index'', VSTR mIndex)],
                mappingFound := True\<rparr>
            else s)
         else s)
      in
        (if \<not> FirstIndexFreeFound s1 then
           (if fst it \<noteq> nFirstIndexFree s1 then s1\<lparr>FirstIndexFreeFound := True\<rparr>
            else s1\<lparr>nFirstIndexFree := nFirstIndexFree s1 + 1\<rparr>)
         else s1))"

fun scan_loop ::
  "string \<Rightarrow> string \<Rightarrow> 'ty mappingIndex_t \<Rightarrow> scan_state \<Rightarrow> scan_state" where
  "scan_loop mIndex name [] s = s"
| "scan_loop mIndex name (it # rest) s = scan_loop mIndex name rest (scan_body mIndex name it s)"

text \<open>
  The handler.  \<^verbatim>\<open>CMapping::FromTypeName\<close>, \<^verbatim>\<open>CMapping::ToTypeName\<close>,
  \<^verbatim>\<open>CMappingDB::Read\<close> and \<^verbatim>\<open>CMappingDB::Save\<close> are declared outside the sources at
  hand and are parameters.  The persistent store is the state \<open>st\<close>: \<open>Read\<close> yields the
  index of a type or fails (\<open>None\<close>, the \<^verbatim>\<open>false\<close> return), \<open>Save\<close> yields its
  \<^verbatim>\<open>bool\<close> result and the new store.  The handler returns what it returns or throws,
  together with the store it leaves behind.  The result of \<open>Save\<close> is dropped, as in the
  source.
\<close>

definition getmappingid ::
  "(string \<Rightarrow> 'ty) \<Rightarrow> ('ty \<Rightarrow> string) \<Rightarrow>
   ('st \<Rightarrow> 'ty \<Rightarrow> 'ty mappingIndex_t option) \<Rightarrow>
   ('st \<Rightarrow> 'ty CMapping \<Rightarrow> bool \<times> 'st) \<Rightarrow>
   'st \<Rightarrow> UniValue list \<Rightarrow> bool \<Rightarrow> (error + UniValue) \<times> 'st" where
  "getmappingid FromTypeName ToTypeName Read Save st params fHelp =
     (if fHelp \<or> length params < 2 then (Inl HelpMessage, st)
      else case get_str (params ! 0) of
        None \<Rightarrow> (Inl NotAString, st)
      | Some mIndex \<Rightarrow>
      (case get_str (params ! 1) of
        None \<Rightarrow> (Inl NotAString, st)
      | Some name \<Rightarrow>
        (let type = FromTypeName mIndex in
         if ToTypeName type \<noteq> mIndex then (Inl InvalidMappingType, st)
         else case Read st type of
           None \<Rightarrow> (Inl IndexUnavailable, st)
         | Some mappingIndex \<Rightarrow>
           (let s = scan_loop mIndex name mappingIndex scan_init in
            if \<not> mappingFound s then
              (let cm = \<lparr>nMType = type, nId = nFirstIndexFree s,
                         sName = name, nVersion = 1\<rparr>;
                   st' = snd (Save st cm)
               in (Inr (VARR [VOBJ (mapping s @
                        [(''mapping-id'', VNUM (unat (nFirstIndexFree s))),
                         (''exists'', VBOOL False),
                         (''mapping-index'', VSTR mIndex)])]), st'))
            else (Inr (VARR [VOBJ (mapping s)]), st)))))"

section \<open>getmappingname\<close>

text \<open>
  The search loop of \<^verbatim>\<open>getmappingname\<close> (lines 147 to 157): it compares the map key
  with the requested id and leaves at the first hit.  It returns the reply object
  (\<^verbatim>\<open>mapping\<close> in the source, \<open>obj\<close> here) and \<^verbatim>\<open>mappingFound\<close>.
\<close>

fun name_loop ::
  "string \<Rightarrow> 32 word \<Rightarrow> 'ty mappingIndex_t \<Rightarrow> (string \<times> UniValue) list \<Rightarrow>
   (string \<times> UniValue) list \<times> bool" where
  "name_loop mIndex id' [] obj = (obj, False)"
| "name_loop mIndex id' (it # rest) obj =
     (if fst it = id' then
        (obj @ [(''mapping-name'', VSTR (sName (snd it))),
                (''exists'', VBOOL True),
                (''mapping-index'', VSTR mIndex)], True)
      else name_loop mIndex id' rest obj)"

text \<open>
  The handler.  \<^verbatim>\<open>std::stoi\<close> belongs to the standard library and is a parameter: it
  yields an \<^verbatim>\<open>int\<close> or throws (\<open>None\<close>).  The assignment to \<^verbatim>\<open>uint32_t id\<close> (here \<open>id'\<close>) converts
  the \<^verbatim>\<open>int\<close> modulo \<open>2 ^ 32\<close>.  The id is parsed before the mapping type is checked.
  The handler never calls \<^verbatim>\<open>Save\<close>; it returns the store as it found it.
\<close>

definition getmappingname ::
  "(string \<Rightarrow> 'ty) \<Rightarrow> ('ty \<Rightarrow> string) \<Rightarrow>
   ('st \<Rightarrow> 'ty \<Rightarrow> 'ty mappingIndex_t option) \<Rightarrow>
   (string \<Rightarrow> int option) \<Rightarrow>
   'st \<Rightarrow> UniValue list \<Rightarrow> bool \<Rightarrow> (error + UniValue) \<times> 'st" where
  "getmappingname FromTypeName ToTypeName Read stoi st params fHelp =
     (if fHelp \<or> length params < 2 then (Inl HelpMessage, st)
      else case get_str (params ! 0) of
        None \<Rightarrow> (Inl NotAString, st)
      | Some mIndex \<Rightarrow>
      (case get_str (params ! 1) of
        None \<Rightarrow> (Inl NotAString, st)
      | Some idstr \<Rightarrow>
      (case stoi idstr of
        None \<Rightarrow> (Inl StoiFailure, st)
      | Some i \<Rightarrow>
        (let id' = (word_of_int i :: 32 word);
             type = FromTypeName mIndex in
         if ToTypeName type \<noteq> mIndex then (Inl InvalidMappingType, st)
         else case Read st type of
           None \<Rightarrow> (Inl IndexUnavailable, st)
         | Some mappingIndex \<Rightarrow>
           (let (obj, found) = name_loop mIndex id' mappingIndex [] in
            if \<not> found then (Inl MappingNotFound, st)
            else (Inr (VARR [VOBJ obj]), st))))))"

section \<open>Reading the handlers' results\<close>

text \<open>
  The array both handlers return holds one object of three pairs.  In the reply of
  \<^verbatim>\<open>getmappingid\<close> the flag \<^verbatim>\<open>"exists"\<close> is true when the name was found and false
  when a record was created: it is the negation of the specification's \<open>created\<close>.
\<close>

definition id_reply :: "nat \<Rightarrow> bool \<Rightarrow> string \<Rightarrow> UniValue" where
  "id_reply n e mIndex =
     VARR [VOBJ [(''mapping-id'', VNUM n), (''exists'', VBOOL e),
                 (''mapping-index'', VSTR mIndex)]]"

definition name_reply :: "string \<Rightarrow> string \<Rightarrow> UniValue" where
  "name_reply nm mIndex =
     VARR [VOBJ [(''mapping-name'', VSTR nm), (''exists'', VBOOL True),
                 (''mapping-index'', VSTR mIndex)]]"

text \<open>The first entry, in iteration order, whose record has the requested name.\<close>

definition first_match ::
  "string \<Rightarrow> 'ty mappingIndex_t \<Rightarrow> (32 word \<times> 'ty CMapping) option" where
  "first_match name idx = find (\<lambda>it. sName (snd it) = name) idx"

text \<open>
  The free-slot rule as the specification words it (section 4.3, step 3b), on the keys
  in ascending order: a candidate counter \<open>c\<close>, started at 0 by the caller; the first
  key that differs from the candidate fixes it; a key equal to it moves the candidate
  one up.  The counter is the handler's \<^verbatim>\<open>unsigned int\<close>.
\<close>

fun spec_free_slot :: "32 word list \<Rightarrow> 32 word \<Rightarrow> 32 word" where
  "spec_free_slot [] c = c"
| "spec_free_slot (k # ks) c = (if k \<noteq> c then c else spec_free_slot ks (c + 1))"

text \<open>The smallest non-negative integer that is not a key of the index.\<close>

definition least_absent :: "'ty mappingIndex_t \<Rightarrow> nat" where
  "least_absent idx = (LEAST n. n \<notin> unat ` fst ` set idx)"

section \<open>The collaborators, as the specification describes them\<close>

text \<open>
  Modelled from the spec: the enumeration \<^verbatim>\<open>MappingTypes\<close> is missing from the sources.
  Section 3 names the namespaces sport, region, tournament and team; \<open>NoType\<close> stands
  for what \<open>toType\<close> yields on a token of no known type.
\<close>

datatype MappingTypes = Sport | Region | Tournament | Team | NoType

text \<open>
  Modelled from the spec: \<^verbatim>\<open>CMapping::FromTypeName\<close> is missing from the sources; this
  is \<open>toType\<close> of section 4.1 with the tokens of sections 2 and 8.
\<close>

definition toType :: "string \<Rightarrow> MappingTypes" where
  "toType token =
     (if token = ''sport'' then Sport
      else if token = ''region'' then Region
      else if token = ''tournament'' then Tournament
      else if token = ''team'' then Team
      else NoType)"

text \<open>
  Modelled from the spec: \<^verbatim>\<open>CMapping::ToTypeName\<close> is missing from the sources; this
  is \<open>toToken\<close> of section 4.1, the inverse of \<open>toType\<close> on the four namespaces.
\<close>

fun toToken :: "MappingTypes \<Rightarrow> string" where
  "toToken Sport = ''sport''"
| "toToken Region = ''region''"
| "toToken Tournament = ''tournament''"
| "toToken Team = ''team''"
| "toToken NoType = []"

text \<open>
  Modelled from the spec: the class \<^verbatim>\<open>CMappingDB\<close> is missing from the sources.  The
  Persistent Store of sections 2 and 6 keeps the records it was given, in the order they
  were saved, and knows for which types an index has been provisioned (section 3: an
  external initialisation step provisions an empty index per type).  A save ends in
  success or in Failure (section 6); \<open>writable\<close> is the condition of the storage engine
  that decides which: an engine that is not writable refuses every save.
\<close>

record 'ty store =
  provisioned :: "'ty set"
  saved :: "'ty CMapping list"
  writable :: bool

text \<open>
  Modelled from the spec: the index is keyed by id and ordered ascending by id
  (section 3), over a key-value storage engine (section 1): a record enters at the place
  of its key, and a record saved under a key that is already there takes its place.
\<close>

fun index_put :: "32 word \<Rightarrow> 'ty CMapping \<Rightarrow> 'ty mappingIndex_t \<Rightarrow> 'ty mappingIndex_t" where
  "index_put k v [] = [(k, v)]"
| "index_put k v (e # rest) =
     (if k < fst e then (k, v) # e # rest
      else if k = fst e then (k, v) # rest
      else e # index_put k v rest)"

text \<open>
  Modelled from the spec: the MappingIndex of section 3, the records of one type keyed
  by their \<open>id\<close> field.
\<close>

definition index_of :: "'ty CMapping list \<Rightarrow> 'ty mappingIndex_t" where
  "index_of recs = fold (\<lambda>cm. index_put (nId cm) cm) recs []"

text \<open>
  Modelled from the spec: \<^verbatim>\<open>CMappingDB::Read\<close> is missing from the sources; this is
  \<open>loadNamespaceIndex(type) -> MappingIndex or NotFound\<close> of section 6: the full set of
  records of the type, or nothing when no index was provisioned for it.
\<close>

definition loadNamespaceIndex :: "'ty store \<Rightarrow> 'ty \<Rightarrow> 'ty mappingIndex_t option" where
  "loadNamespaceIndex st ty =
     (if ty \<in> provisioned st
      then Some (index_of (filter (\<lambda>cm. nMType cm = ty) (saved st)))
      else None)"

text \<open>
  Modelled from the spec: \<^verbatim>\<open>CMappingDB::Save\<close> is missing from the sources; this is
  \<open>saveRecord(record) -> success or Failure\<close> of section 6.  Success is "an append of
  one record, not a rewrite of the whole index" (section 4.3, step 5); a Failure
  commits nothing (section 7: "either the record is saved or the operation fails as a
  whole") and leaves the store as it was.  The \<^verbatim>\<open>bool\<close> is true on success.
\<close>

definition saveRecord :: "'ty store \<Rightarrow> 'ty CMapping \<Rightarrow> bool \<times> 'ty store" where
  "saveRecord st cm =
     (if writable st then (True, st\<lparr>saved := saved st @ [cm]\<rparr>) else (False, st))"

section \<open>Stores and indexes for concrete runs\<close>

text \<open>
  A store that serves one given index for every type and whose save reports failure
  and changes nothing.  It lets a run start from any index, also one that no sequence
  of saves produces.
\<close>

definition fixed_Read :: "'ty mappingIndex_t \<Rightarrow> unit \<Rightarrow> 'ty \<Rightarrow> 'ty mappingIndex_t option" where
  "fixed_Read idx st ty = Some idx"

definition failing_Save :: "unit \<Rightarrow> 'ty CMapping \<Rightarrow> bool \<times> unit" where
  "failing_Save st cm = (False, st)"

definition sport_rec :: "32 word \<Rightarrow> string \<Rightarrow> MappingTypes CMapping" where
  "sport_rec i n = \<lparr>nMType = Sport, nId = i, sName = n, nVersion = 1\<rparr>"

text \<open>The sport index with the ids 0, 1 and 3, in a store that accepts saves.\<close>

definition store_013 :: "MappingTypes store" where
  "store_013 = \<lparr>provisioned = {Sport},
                 saved = [sport_rec 0 ''Football'', sport_rec 1 ''Tennis'',
                          sport_rec 3 ''Golf''],
                 writable = True\<rparr>"

text \<open>
  The index that holds the keys \<open>0, ..., m - 1\<close>, every record named "a"; with
  \<open>m = 2 ^ 32\<close> every \<^verbatim>\<open>uint32_t\<close> is a key.
\<close>

definition index_upto :: "nat \<Rightarrow> MappingTypes mappingIndex_t" where
  "index_upto m = map (\<lambda>n. (word_of_nat n, sport_rec (word_of_nat n) ''a'')) [0..<m]"

definition full_index :: "MappingTypes mappingIndex_t" where
  "full_index = index_upto (2 ^ 32)"

text \<open>A sport index in which two records carry the name "Tennis".\<close>

definition store_dup :: "MappingTypes store" where
  "store_dup = \<lparr>provisioned = {Sport},
                 saved = [sport_rec 0 ''Football'', sport_rec 1 ''Tennis'',
                          sport_rec 2 ''Tennis''],
                 writable = True\<rparr>"

text \<open>An index whose record under key 0 stores the id 7.\<close>

definition index_skew :: "MappingTypes mappingIndex_t" where
  "index_skew = [(0, sport_rec 7 ''Football''), (1, sport_rec 1 ''Tennis'')]"

section \<open>The scan loop\<close>

text \<open>Once a name matched, the rest of the loop leaves the reply alone.\<close>

lemma scan_loop_found_keep:
  "mappingFound s \<Longrightarrow>
   mappingFound (scan_loop mIndex name idx s) \<and>
   mapping (scan_loop mIndex name idx s) = mapping s"
  by (induction idx arbitrary: s) (simp_all add: scan_body_def Let_def)

text \<open>The reply the loop builds is that of the first entry with the requested name.\<close>

lemma scan_loop_match:
  "\<not> mappingFound s \<Longrightarrow>
   (case first_match name idx of
      None \<Rightarrow> \<not> mappingFound (scan_loop mIndex name idx s) \<and>
              mapping (scan_loop mIndex name idx s) = mapping s
    | Some it \<Rightarrow> mappingFound (scan_loop mIndex name idx s) \<and>
              mapping (scan_loop mIndex name idx s) = mapping s @
                [(''mapping-id'', VNUM (unat (nId (snd it)))),
                 (''exists'', VBOOL True),
                 (''mapping-index'', VSTR mIndex)])"
proof (induction idx arbitrary: s)
  case Nil
  then show ?case by (simp add: first_match_def)
next
  case (Cons it rest)
  show ?case
  proof (cases "sName (snd it) = name")
    case True
    with Cons.prems have "mappingFound (scan_body mIndex name it s)"
      and "mapping (scan_body mIndex name it s) = mapping s @
                [(''mapping-id'', VNUM (unat (nId (snd it)))),
                 (''exists'', VBOOL True),
                 (''mapping-index'', VSTR mIndex)]"
      by (simp_all add: scan_body_def Let_def)
    with True show ?thesis
      using scan_loop_found_keep [of "scan_body mIndex name it s" mIndex name rest]
      by (simp add: first_match_def)
  next
    case False
    with Cons.prems have "\<not> mappingFound (scan_body mIndex name it s)"
      and "mapping (scan_body mIndex name it s) = mapping s"
      by (simp_all add: scan_body_def Let_def)
    with False show ?thesis
      using Cons.IH [of "scan_body mIndex name it s"]
      by (auto simp add: first_match_def split: option.splits)
  qed
qed

text \<open>The counter the loop leaves is the free-slot rule run on the keys.\<close>

lemma scan_loop_free:
  "nFirstIndexFree (scan_loop mIndex name idx s) =
     (if FirstIndexFreeFound s then nFirstIndexFree s
      else spec_free_slot (map fst idx) (nFirstIndexFree s))"
proof (induction idx arbitrary: s)
  case Nil
  then show ?case by simp
next
  case (Cons it rest)
  show ?case
    by (simp add: Cons.IH scan_body_def Let_def)
qed

section \<open>What the handlers compute\<close>

lemma getmappingid_found:
  assumes "ToTypeName (FromTypeName tok) = tok"
    and "Read st (FromTypeName tok) = Some idx"
    and "first_match name idx = Some it"
  shows "getmappingid FromTypeName ToTypeName Read Save st (VSTR tok # VSTR name # rest) False =
           (Inr (id_reply (unat (nId (snd it))) True tok), st)"
  using assms
    scan_loop_match [where s = scan_init and name = name and idx = idx and mIndex = tok]
  by (simp add: getmappingid_def Let_def id_reply_def scan_init_def)

lemma getmappingid_created:
  assumes "ToTypeName (FromTypeName tok) = tok"
    and "Read st (FromTypeName tok) = Some idx"
    and "first_match name idx = None"
  shows "getmappingid FromTypeName ToTypeName Read Save st (VSTR tok # VSTR name # rest) False =
           (Inr (id_reply (unat (spec_free_slot (map fst idx) 0)) False tok),
            snd (Save st \<lparr>nMType = FromTypeName tok, nId = spec_free_slot (map fst idx) 0,
                           sName = name, nVersion = 1\<rparr>))"
  using assms
    scan_loop_match [where s = scan_init and name = name and idx = idx and mIndex = tok]
    scan_loop_free [where s = scan_init and name = name and idx = idx and mIndex = tok]
  by (simp add: getmappingid_def Let_def id_reply_def scan_init_def)

lemma name_loop_map_of:
  "name_loop mIndex k idx obj =
     (case map_of idx k of
        None \<Rightarrow> (obj, False)
      | Some cm \<Rightarrow> (obj @ [(''mapping-name'', VSTR (sName cm)),
                (''exists'', VBOOL True),
                (''mapping-index'', VSTR mIndex)], True))"
  by (induction idx) auto

lemma getmappingname_eq:
  assumes "ToTypeName (FromTypeName tok) = tok"
    and "Read st (FromTypeName tok) = Some idx"
    and "stoi s = Some i"
  shows "getmappingname FromTypeName ToTypeName Read stoi st (VSTR tok # VSTR s # rest) False =
           (case map_of idx (word_of_int i) of
              None \<Rightarrow> (Inl MappingNotFound, st)
            | Some cm \<Rightarrow> (Inr (name_reply (sName cm) tok), st))"
  using assms
  by (simp add: getmappingname_def Let_def name_reply_def name_loop_map_of
      split: option.splits)

lemma first_match_None_iff:
  "first_match name idx = None \<longleftrightarrow> name \<notin> sName ` snd ` set idx"
  unfolding first_match_def find_None_iff by force

lemma first_match_SomeD:
  "first_match name idx = Some it \<Longrightarrow> it \<in> set idx \<and> sName (snd it) = name"
  by (auto simp: first_match_def find_Some_iff)

section \<open>The free-slot rule\<close>

text \<open>
  On strictly ascending keys that start at the candidate or above, and as long as the
  counter cannot wrap, the rule yields the smallest number from the candidate on that
  is not a key.
\<close>

lemma free_slot_least:
  assumes "sorted_wrt (<) ks" and "\<forall>k\<in>set ks. c \<le> k" and "unat c + length ks < 2 ^ 32"
  shows "unat (spec_free_slot ks c) = (LEAST n. unat c \<le> n \<and> n \<notin> unat ` set ks)"
  using assms
proof (induction ks arbitrary: c)
  case Nil
  have "(LEAST n. unat c \<le> n) = unat c" by (rule Least_equality) simp_all
  then show ?case by simp
next
  case (Cons k ks)
  show ?case
  proof (cases "k = c")
    case False
    with Cons.prems have "c < k" by (simp add: order_less_le)
    with Cons.prems have "\<forall>k'\<in>set (k # ks). c < k'" by (auto intro: less_trans)
    then have "unat c \<notin> unat ` set (k # ks)" by (auto simp: word_less_nat_alt)
    then have "(LEAST n. unat c \<le> n \<and> n \<notin> unat ` set (k # ks)) = unat c"
      by (intro Least_equality) auto
    with False show ?thesis by simp
  next
    case True
    from Cons.prems have lt: "unat c + 1 < 2 ^ 32" by simp
    then have suc: "unat (c + 1) = unat c + 1"
      by (simp add: unat_word_ariths)
    from Cons.prems True have gt: "\<forall>k'\<in>set ks. c < k'" by auto
    have ge: "\<forall>k'\<in>set ks. c + 1 \<le> k'"
    proof
      fix k' assume "k' \<in> set ks"
      with gt have "unat c < unat k'" by (simp add: word_less_nat_alt)
      then show "c + 1 \<le> k'" by (simp add: word_le_nat_alt suc)
    qed
    have "unat (spec_free_slot ks (c + 1)) = (LEAST n. unat (c + 1) \<le> n \<and> n \<notin> unat ` set ks)"
      using Cons.prems ge suc by (intro Cons.IH) simp_all
    also have "(\<lambda>n. unat (c + 1) \<le> n \<and> n \<notin> unat ` set ks) =
               (\<lambda>n. unat c \<le> n \<and> n \<notin> unat ` set (k # ks))"
      using True suc by (auto simp: fun_eq_iff)
    finally show ?thesis using True by simp
  qed
qed

lemma free_slot_least_absent:
  assumes "wf_index idx" and "length idx < 2 ^ 32"
  shows "unat (spec_free_slot (map fst idx) 0) = least_absent idx"
  using free_slot_least [of "map fst idx" 0] assms
  by (simp add: wf_index_def least_absent_def image_image)

section \<open>Concrete runs\<close>

lemma sport_token: "toToken (toType ''sport'') = ''sport''"
  by (simp add: toType_def)

lemma toType_sport: "toType ''sport'' = Sport"
  by (simp add: toType_def)

lemma store_013_index:
  "loadNamespaceIndex store_013 (toType ''sport'') =
     Some [(0, sport_rec 0 ''Football''), (1, sport_rec 1 ''Tennis''),
           (3, sport_rec 3 ''Golf'')]"
  by (simp add: toType_sport loadNamespaceIndex_def store_013_def index_of_def sport_rec_def)

lemma writable_store_013: "writable store_013"
  by (simp add: store_013_def)

lemma wf_index_013:
  "wf_index [(0, sport_rec 0 ''Football''), (1, sport_rec 1 ''Tennis''),
             (3, sport_rec 3 ''Golf'')]"
  by (simp add: wf_index_def)

section \<open>Get-or-create: the found case and the created case\<close>

text \<open>
  Claim C4.  When the loaded index holds a record whose name is the requested name,
  \<^verbatim>\<open>getmappingid\<close> answers with the id stored in a record of that name (the first one
  in iteration order) and with \<^verbatim>\<open>"exists": true\<close>, which is the specification's
  \<open>created = false\<close>, and it leaves the store exactly as it was: \<open>Save\<close> is not called.
\<close>

theorem C4_found_no_write:
  assumes "ToTypeName (FromTypeName tok) = tok"
    and "Read st (FromTypeName tok) = Some idx"
    and "name \<in> sName ` snd ` set idx"
  shows "\<exists>it. first_match name idx = Some it \<and> it \<in> set idx \<and> sName (snd it) = name \<and>
           getmappingid FromTypeName ToTypeName Read Save st
             (VSTR tok # VSTR name # rest) False =
             (Inr (id_reply (unat (nId (snd it))) True tok), st)"
proof -
  from assms(3) obtain it where it: "first_match name idx = Some it"
    using first_match_None_iff [of name idx] by (cases "first_match name idx") auto
  with assms(1,2) show ?thesis
    using getmappingid_found [of ToTypeName FromTypeName tok Read st idx name it Save rest]
      first_match_SomeD [OF it]
    by simp
qed

theorem C4_found_no_write_witness:
  "toToken (toType ''sport'') = ''sport'' \<and>
   loadNamespaceIndex store_013 (toType ''sport'') =
     Some [(0, sport_rec 0 ''Football''), (1, sport_rec 1 ''Tennis''),
           (3, sport_rec 3 ''Golf'')] \<and>
   ''Tennis'' \<in> sName ` snd ` set
     [(0, sport_rec 0 ''Football''), (1, sport_rec 1 ''Tennis''),
      (3, sport_rec 3 ''Golf'')] \<and>
   getmappingid toType toToken loadNamespaceIndex saveRecord store_013
     [VSTR ''sport'', VSTR ''Tennis''] False = (Inr (id_reply 1 True ''sport''), store_013)"
proof -
  have h3: "''Tennis'' \<in> sName ` snd ` set
      [(0, sport_rec 0 ''Football''), (1, sport_rec 1 ''Tennis''),
       (3, sport_rec 3 ''Golf'')]"
    by (simp add: sport_rec_def)
  from C4_found_no_write [of toToken toType "''sport''" loadNamespaceIndex store_013 _
      "''Tennis''" saveRecord "[]", OF sport_token store_013_index h3]
  have "getmappingid toType toToken loadNamespaceIndex saveRecord store_013
     [VSTR ''sport'', VSTR ''Tennis''] False = (Inr (id_reply 1 True ''sport''), store_013)"
    by (auto simp: first_match_def sport_rec_def)
  with h3 show ?thesis by (simp add: sport_token store_013_index)
qed



section \<open>The two early failures\<close>

text \<open>
  Claim C6.  A namespace token that does not come back from
  \<open>ToTypeName (FromTypeName token)\<close> makes both handlers throw the
  \<open>InvalidMappingType\<close> error.  The answer does not depend on \<open>Read\<close> or \<open>Save\<close>, and
  the store is returned as it was.  For \<^verbatim>\<open>getmappingname\<close> the requested id is one that
  \<^verbatim>\<open>std::stoi\<close> has parsed: the handler parses the id before it checks the type.
\<close>

theorem C6_invalid_type:
  assumes "ToTypeName (FromTypeName tok) \<noteq> tok" and "stoi s = Some i"
  shows "getmappingid FromTypeName ToTypeName Read Save st (VSTR tok # VSTR name # rest) False =
           (Inl InvalidMappingType, st) \<and>
         getmappingname FromTypeName ToTypeName Read stoi st (VSTR tok # VSTR s # rest') False =
           (Inl InvalidMappingType, st)"
  using assms by (simp add: getmappingid_def getmappingname_def Let_def)

theorem C6_invalid_type_witness:
  "toToken (toType ''not-a-real-type'') \<noteq> ''not-a-real-type'' \<and>
   map_of [(''5'', 5)] ''5'' = Some (5 :: int) \<and>
   getmappingid toType toToken loadNamespaceIndex saveRecord store_013
     [VSTR ''not-a-real-type'', VSTR ''x''] False = (Inl InvalidMappingType, store_013) \<and>
   getmappingname toType toToken loadNamespaceIndex (map_of [(''5'', 5)]) store_013
     [VSTR ''not-a-real-type'', VSTR ''5''] False = (Inl InvalidMappingType, store_013)"
proof -
  have h1: "toToken (toType ''not-a-real-type'') \<noteq> ''not-a-real-type''"
    by (simp add: toType_def)
  have h2: "map_of [(''5'', 5)] ''5'' = Some (5 :: int)" by simp
  from C6_invalid_type [of toToken toType "''not-a-real-type''" "map_of [(''5'', 5)]" "''5''" 5
      loadNamespaceIndex saveRecord store_013 "''x''" "[]" "[]", OF h1 h2] h1 h2
  show ?thesis by simp
qed

text \<open>
  Claim C7.  For a valid namespace token whose index the store cannot load (\<open>Read\<close>
  fails), both handlers throw the \<open>IndexUnavailable\<close> error, and the store is returned
  as it was: no index is created and nothing is saved.
\<close>

theorem C7_index_unavailable:
  assumes "ToTypeName (FromTypeName tok) = tok"
    and "Read st (FromTypeName tok) = None"
    and "stoi s = Some i"
  shows "getmappingid FromTypeName ToTypeName Read Save st (VSTR tok # VSTR name # rest) False =
           (Inl IndexUnavailable, st) \<and>
         getmappingname FromTypeName ToTypeName Read stoi st (VSTR tok # VSTR s # rest') False =
           (Inl IndexUnavailable, st)"
  using assms by (simp add: getmappingid_def getmappingname_def Let_def)

theorem C7_index_unavailable_witness:
  "toToken (toType ''team'') = ''team'' \<and>
   loadNamespaceIndex store_013 (toType ''team'') = None \<and>
   map_of [(''0'', 0)] ''0'' = Some (0 :: int) \<and>
   getmappingid toType toToken loadNamespaceIndex saveRecord store_013
     [VSTR ''team'', VSTR ''Lions''] False = (Inl IndexUnavailable, store_013) \<and>
   getmappingname toType toToken loadNamespaceIndex (map_of [(''0'', 0)]) store_013
     [VSTR ''team'', VSTR ''0''] False = (Inl IndexUnavailable, store_013)"
proof -
  have h1: "toToken (toType ''team'') = ''team''" by (simp add: toType_def)
  have h2: "loadNamespaceIndex store_013 (toType ''team'') = None"
    by (simp add: toType_def loadNamespaceIndex_def store_013_def)
  have h3: "map_of [(''0'', 0)] ''0'' = Some (0 :: int)" by simp
  from C7_index_unavailable [of toToken toType "''team''" loadNamespaceIndex store_013
      "map_of [(''0'', 0)]" "''0''" 0 saveRecord "''Lions''" "[]" "[]", OF h1 h2 h3] h1 h2 h3
  show ?thesis by simp
qed

section \<open>Resolve by id\<close>

lemma getmappingname_store:
  "snd (getmappingname FromTypeName ToTypeName Read stoi st params fHelp) = st"
  by (simp add: getmappingname_def Let_def split: option.splits prod.splits)

text \<open>
  Claim C8.  On a loaded index, \<^verbatim>\<open>getmappingname\<close> answers with the name of the record
  kept under the requested id (the \<^verbatim>\<open>int\<close> that \<^verbatim>\<open>std::stoi\<close> parsed, converted to
  \<^verbatim>\<open>uint32_t\<close>) and \<^verbatim>\<open>"exists": true\<close> when there is such a record; it throws
  \<open>MappingNotFound\<close> exactly when no entry of the index has that id; and whatever its
  parameters, it returns the store as it was.
\<close>

theorem C8_resolve_by_id:
  assumes "ToTypeName (FromTypeName tok) = tok"
    and "Read st (FromTypeName tok) = Some idx"
    and "wf_index idx"
    and "stoi s = Some i"
  shows "(\<forall>cm. (word_of_int i, cm) \<in> set idx \<longrightarrow>
            getmappingname FromTypeName ToTypeName Read stoi st (VSTR tok # VSTR s # rest) False =
              (Inr (name_reply (sName cm) tok), st)) \<and>
         (getmappingname FromTypeName ToTypeName Read stoi st (VSTR tok # VSTR s # rest) False =
              (Inl MappingNotFound, st) \<longleftrightarrow> word_of_int i \<notin> fst ` set idx) \<and>
         (\<forall>params fHelp.
            snd (getmappingname FromTypeName ToTypeName Read stoi st params fHelp) = st)"
proof -
  let ?r = "getmappingname FromTypeName ToTypeName Read stoi st (VSTR tok # VSTR s # rest) False"
  have eq: "?r = (case map_of idx (word_of_int i) of
              None \<Rightarrow> (Inl MappingNotFound, st)
            | Some cm \<Rightarrow> (Inr (name_reply (sName cm) tok), st))"
    using assms(1,2,4) by (rule getmappingname_eq)
  from assms(3) have dist: "distinct (map fst idx)"
    by (simp add: wf_index_def strict_sorted_iff)
  have found: "\<forall>cm. (word_of_int i, cm) \<in> set idx \<longrightarrow>
      ?r = (Inr (name_reply (sName cm) tok), st)"
    using eq dist by (auto dest: map_of_is_SomeI)
  have missing: "?r = (Inl MappingNotFound, st) \<longleftrightarrow> word_of_int i \<notin> fst ` set idx"
    using eq by (auto simp: map_of_eq_None_iff split: option.splits dest: map_of_SomeD
        intro: rev_image_eqI)
  from found missing show ?thesis by (simp add: getmappingname_store)
qed

theorem C8_resolve_by_id_witness:
  "toToken (toType ''sport'') = ''sport'' \<and>
   loadNamespaceIndex store_013 (toType ''sport'') =
     Some [(0, sport_rec 0 ''Football''), (1, sport_rec 1 ''Tennis''),
           (3, sport_rec 3 ''Golf'')] \<and>
   wf_index [(0, sport_rec 0 ''Football''), (1, sport_rec 1 ''Tennis''),
             (3, sport_rec 3 ''Golf'')] \<and>
   map_of [(''1'', 1), (''5'', 5)] ''1'' = Some (1 :: int) \<and>
   map_of [(''1'', 1), (''5'', 5)] ''5'' = Some (5 :: int) \<and>
   getmappingname toType toToken loadNamespaceIndex (map_of [(''1'', 1), (''5'', 5)]) store_013
     [VSTR ''sport'', VSTR ''1''] False = (Inr (name_reply ''Tennis'' ''sport''), store_013) \<and>
   getmappingname toType toToken loadNamespaceIndex (map_of [(''1'', 1), (''5'', 5)]) store_013
     [VSTR ''sport'', VSTR ''5''] False = (Inl MappingNotFound, store_013)"
proof -
  have h1: "map_of [(''1'', 1), (''5'', 5)] ''1'' = Some (1 :: int)" by simp
  have h5: "map_of [(''1'', 1), (''5'', 5)] ''5'' = Some (5 :: int)" by simp
  from C8_resolve_by_id [of toToken toType "''sport''" loadNamespaceIndex store_013 _
      "map_of [(''1'', 1), (''5'', 5)]" "''1''" 1 "[]",
      OF sport_token store_013_index wf_index_013 h1]
  have r1: "getmappingname toType toToken loadNamespaceIndex (map_of [(''1'', 1), (''5'', 5)])
      store_013 [VSTR ''sport'', VSTR ''1''] False =
      (Inr (name_reply ''Tennis'' ''sport''), store_013)"
    by (simp add: sport_rec_def)
  from C8_resolve_by_id [of toToken toType "''sport''" loadNamespaceIndex store_013 _
      "map_of [(''1'', 1), (''5'', 5)]" "''5''" 5 "[]",
      OF sport_token store_013_index wf_index_013 h5]
  have r5: "getmappingname toType toToken loadNamespaceIndex (map_of [(''1'', 1), (''5'', 5)])
      store_013 [VSTR ''sport'', VSTR ''5''] False = (Inl MappingNotFound, store_013)"
    by simp
  from r1 r5 h1 h5 show ?thesis
    by (simp add: sport_token store_013_index wf_index_013)
qed

section \<open>Duplicate names, and ids that differ from their key\<close>

text \<open>
  In a well-formed index the first entry in iteration order with the requested name is
  the one with the smallest key among them.
\<close>

lemma first_match_least_key:
  assumes "wf_index idx" and "(k, c) \<in> set idx" and "sName c = name"
    and "\<forall>it\<in>set idx. sName (snd it) = name \<longrightarrow> k \<le> fst it"
  shows "first_match name idx = Some (k, c)"
  using assms
proof (induction idx)
  case Nil
  then show ?case by simp
next
  case (Cons e rest)
  show ?case
  proof (cases "sName (snd e) = name")
    case True
    with Cons.prems(4) have le: "k \<le> fst e" by simp
    have "e = (k, c)"
    proof (rule ccontr)
      assume "e \<noteq> (k, c)"
      with Cons.prems(2) have "(k, c) \<in> set rest" by auto
      with Cons.prems(1) have "fst e < k" by (force simp: wf_index_def)
      with le show False by simp
    qed
    with True show ?thesis by (simp add: first_match_def)
  next
    case False
    with Cons.prems have "(k, c) \<in> set rest" by auto
    moreover from Cons.prems(1) have "wf_index rest" by (simp add: wf_index_def)
    ultimately have "first_match name rest = Some (k, c)"
      using Cons.prems(3,4) by (intro Cons.IH) simp_all
    with False show ?thesis by (simp add: first_match_def)
  qed
qed

text \<open>
  Claim C9.  When the loaded index holds the requested name more than once,
  \<^verbatim>\<open>getmappingid\<close> answers with the id stored in the record that comes first in
  ascending key order: the entry \<open>(k, c)\<close> whose key is the smallest among the entries
  of that name.  The entries after it have no influence on the answer, and nothing is
  saved.
\<close>

theorem C9_first_duplicate_wins:
  assumes "ToTypeName (FromTypeName tok) = tok"
    and "Read st (FromTypeName tok) = Some idx"
    and "wf_index idx"
    and "(k, c) \<in> set idx" and "sName c = name"
    and "\<forall>it\<in>set idx. sName (snd it) = name \<longrightarrow> k \<le> fst it"
  shows "getmappingid FromTypeName ToTypeName Read Save st (VSTR tok # VSTR name # rest) False =
           (Inr (id_reply (unat (nId c)) True tok), st)"
  using getmappingid_found [of ToTypeName FromTypeName tok Read st idx name "(k, c)" Save rest]
    first_match_least_key [of idx k c name] assms
  by simp

lemma store_dup_index:
  "loadNamespaceIndex store_dup (toType ''sport'') =
     Some [(0, sport_rec 0 ''Football''), (1, sport_rec 1 ''Tennis''),
           (2, sport_rec 2 ''Tennis'')]"
  by (simp add: toType_sport loadNamespaceIndex_def store_dup_def index_of_def sport_rec_def)

theorem C9_first_duplicate_wins_witness:
  "toToken (toType ''sport'') = ''sport'' \<and>
   loadNamespaceIndex store_dup (toType ''sport'') =
     Some [(0, sport_rec 0 ''Football''), (1, sport_rec 1 ''Tennis''),
           (2, sport_rec 2 ''Tennis'')] \<and>
   wf_index [(0, sport_rec 0 ''Football''), (1, sport_rec 1 ''Tennis''),
           (2, sport_rec 2 ''Tennis'')] \<and>
   getmappingid toType toToken loadNamespaceIndex saveRecord store_dup
     [VSTR ''sport'', VSTR ''Tennis''] False = (Inr (id_reply 1 True ''sport''), store_dup)"
proof -
  let ?idx = "[(0, sport_rec 0 ''Football''), (1, sport_rec 1 ''Tennis''),
           (2 :: 32 word, sport_rec 2 ''Tennis'')]"
  have wf: "wf_index ?idx" by (simp add: wf_index_def)
  have mem: "(1, sport_rec 1 ''Tennis'') \<in> set ?idx" by simp
  have nm: "sName (sport_rec 1 ''Tennis'') = ''Tennis''" by (simp add: sport_rec_def)
  have least: "\<forall>it\<in>set ?idx. sName (snd it) = ''Tennis'' \<longrightarrow> 1 \<le> fst it"
    by (simp add: sport_rec_def)
  from C9_first_duplicate_wins [of toToken toType "''sport''" loadNamespaceIndex store_dup ?idx
      1 "sport_rec 1 ''Tennis''" "''Tennis''" saveRecord "[]",
      OF sport_token store_dup_index wf mem nm least]
  have "getmappingid toType toToken loadNamespaceIndex saveRecord store_dup
     [VSTR ''sport'', VSTR ''Tennis''] False = (Inr (id_reply 1 True ''sport''), store_dup)"
    by (simp add: sport_rec_def)
  with wf show ?thesis by (simp add: sport_token store_dup_index)
qed

text \<open>
  Claim C10.  In the found case \<^verbatim>\<open>getmappingid\<close> answers with the \<^verbatim>\<open>nId\<close> field
  stored in the first entry of the requested name, not with the key \<open>k\<close> of that
  entry; \<^verbatim>\<open>getmappingname\<close> asked for the key \<open>k\<close> finds that same entry, and the
  counter \<^verbatim>\<open>nFirstIndexFree\<close> of the scan is computed from the keys alone.  So where
  the stored field differs from the key, the id in the answer is the stored field and
  differs from the key.
\<close>

theorem C10_stored_id_not_key:
  assumes "ToTypeName (FromTypeName tok) = tok"
    and "Read st (FromTypeName tok) = Some idx"
    and "wf_index idx"
    and "first_match name idx = Some (k, c)"
    and "stoi s = Some i" and "word_of_int i = k"
  shows "getmappingid FromTypeName ToTypeName Read Save st (VSTR tok # VSTR name # rest) False =
           (Inr (id_reply (unat (nId c)) True tok), st) \<and>
         getmappingname FromTypeName ToTypeName Read stoi st (VSTR tok # VSTR s # rest') False =
           (Inr (name_reply name tok), st) \<and>
         nFirstIndexFree (scan_loop tok name idx scan_init) = spec_free_slot (map fst idx) 0 \<and>
         (nId c \<noteq> k \<longrightarrow> id_reply (unat (nId c)) True tok \<noteq> id_reply (unat k) True tok)"
proof -
  from assms(4) have mem: "(k, c) \<in> set idx" and nm: "sName c = name"
    using first_match_SomeD [of name idx "(k, c)"] by simp_all
  from assms(3) have "distinct (map fst idx)"
    by (simp add: wf_index_def strict_sorted_iff)
  then have "map_of idx k = Some c" using mem by (rule map_of_is_SomeI)
  with assms(1,2,5,6) nm
  have byname: "getmappingname FromTypeName ToTypeName Read stoi st
      (VSTR tok # VSTR s # rest') False = (Inr (name_reply name tok), st)"
    using getmappingname_eq [of ToTypeName FromTypeName tok Read st idx stoi s i rest'] by simp
  have byid: "getmappingid FromTypeName ToTypeName Read Save st
      (VSTR tok # VSTR name # rest) False = (Inr (id_reply (unat (nId c)) True tok), st)"
    using getmappingid_found [of ToTypeName FromTypeName tok Read st idx name "(k, c)" Save rest]
      assms(1,2,4) by simp
  have free: "nFirstIndexFree (scan_loop tok name idx scan_init) = spec_free_slot (map fst idx) 0"
    by (simp add: scan_loop_free scan_init_def)
  from byname byid free show ?thesis by (simp add: id_reply_def word_unat_eq_iff)
qed

theorem C10_stored_id_not_key_witness:
  "toToken (toType ''sport'') = ''sport'' \<and>
   fixed_Read index_skew () (toType ''sport'') = Some index_skew \<and>
   wf_index index_skew \<and>
   first_match ''Football'' index_skew = Some (0, sport_rec 7 ''Football'') \<and>
   map_of [(''0'', 0)] ''0'' = Some (0 :: int) \<and>
   getmappingid toType toToken (fixed_Read index_skew) failing_Save ()
     [VSTR ''sport'', VSTR ''Football''] False = (Inr (id_reply 7 True ''sport''), ()) \<and>
   getmappingname toType toToken (fixed_Read index_skew) (map_of [(''0'', 0)]) ()
     [VSTR ''sport'', VSTR ''0''] False = (Inr (name_reply ''Football'' ''sport''), ()) \<and>
   id_reply 7 True ''sport'' \<noteq> id_reply 0 True ''sport''"
proof -
  have h2: "fixed_Read index_skew () (toType ''sport'') = Some index_skew"
    by (simp add: fixed_Read_def)
  have h3: "wf_index index_skew" by (simp add: wf_index_def index_skew_def)
  have h4: "first_match ''Football'' index_skew = Some (0, sport_rec 7 ''Football'')"
    by (simp add: first_match_def index_skew_def sport_rec_def)
  have h5: "map_of [(''0'', 0)] ''0'' = Some (0 :: int)" by simp
  have h6: "(word_of_int 0 :: 32 word) = 0" by simp
  from C10_stored_id_not_key [of toToken toType "''sport''" "fixed_Read index_skew" "()"
      index_skew "''Football''" 0 "sport_rec 7 ''Football''" "map_of [(''0'', 0)]" "''0''" 0
      failing_Save "[]" "[]", OF sport_token h2 h3 h4 h5 h6]
  have "getmappingid toType toToken (fixed_Read index_skew) failing_Save ()
     [VSTR ''sport'', VSTR ''Football''] False = (Inr (id_reply 7 True ''sport''), ()) \<and>
   getmappingname toType toToken (fixed_Read index_skew) (map_of [(''0'', 0)]) ()
     [VSTR ''sport'', VSTR ''0''] False = (Inr (name_reply ''Football'' ''sport''), ()) \<and>
   id_reply 7 True ''sport'' \<noteq> id_reply 0 True ''sport''"
    by (simp add: sport_rec_def)
  with h2 h3 h4 h5 show ?thesis by (simp add: sport_token)
qed

section \<open>The smallest free slot\<close>

lemma least_absent_lessThan:
  "unat ` fst ` set idx = {..<m} \<Longrightarrow> least_absent idx = m"
  unfolding least_absent_def by (rule Least_equality) auto

text \<open>
  On the keys \<open>n, ..., m - 1\<close> the rule started at \<open>n\<close> ends at \<open>m\<close>, as a
  32-bit value.
\<close>

lemma free_slot_upt:
  "n \<le> m \<Longrightarrow> spec_free_slot (map word_of_nat [n..<m]) (word_of_nat n) = word_of_nat m"
proof (induction "m - n" arbitrary: n)
  case 0
  then show ?case by simp
next
  case (Suc d)
  then have lt: "n < m" and le: "Suc n \<le> m" and d: "d = m - Suc n" by simp_all
  have "spec_free_slot (map word_of_nat [Suc n..<m]) (word_of_nat (Suc n) :: 32 word) = word_of_nat m"
    using d le by (rule Suc.hyps(1))
  with lt show ?case by (simp add: upt_conv_Cons add.commute)
qed

lemma keys_index_upto: "map fst (index_upto m) = map word_of_nat [0..<m]"
  by (simp add: index_upto_def comp_def)

lemma length_index_upto: "length (index_upto m) = m"
  by (simp add: index_upto_def)

lemma names_index_upto: "sName ` snd ` set (index_upto m) \<subseteq> {''a''}"
  by (auto simp: index_upto_def sport_rec_def)

lemma wf_index_upto:
  assumes "m \<le> 2 ^ 32"
  shows "wf_index (index_upto m)"
proof -
  have "sorted_wrt (\<lambda>x y. (word_of_nat x :: 32 word) < word_of_nat y) [0..<m]"
  proof (rule sorted_wrt_mono_rel [of _ "(<)"])
    fix x y assume "x \<in> set [0..<m]" "y \<in> set [0..<m]" "x < y"
    with assms have "x < 2 ^ 32" "y < 2 ^ 32" by simp_all
    with \<open>x < y\<close> show "(word_of_nat x :: 32 word) < word_of_nat y"
      by (simp add: of_nat_word_less_iff take_bit_nat_eq_self)
  qed simp
  then show ?thesis
    by (simp add: wf_index_def keys_index_upto sorted_wrt_map)
qed

lemma ids_index_upto:
  assumes "m \<le> 2 ^ 32"
  shows "unat ` fst ` set (index_upto m) = {..<m}"
proof -
  have "unat ` fst ` set (index_upto m) = (\<lambda>n. unat (word_of_nat n :: 32 word)) ` {..<m}"
    by (auto simp: index_upto_def image_image atLeast0LessThan)
  also have "\<dots> = (\<lambda>n. n) ` {..<m}"
  proof (rule image_cong)
    fix n assume "n \<in> {..<m}"
    with assms have "n < 2 ^ 32" by simp
    then show "unat (word_of_nat n :: 32 word) = n"
      by (simp add: unat_of_nat)
  qed simp
  finally show ?thesis by simp
qed

text \<open>On the index of all \<open>2 ^ 32\<close> keys the counter wraps around to 0.\<close>

lemma free_slot_full_index: "spec_free_slot (map fst full_index) 0 = 0"
proof -
  have "spec_free_slot (map word_of_nat [0..<2 ^ 32]) (word_of_nat 0 :: 32 word) = word_of_nat (2 ^ 32)"
    by (rule free_slot_upt) simp
  moreover have "(word_of_nat (2 ^ 32) :: 32 word) = 0"
    by (simp add: word_of_nat_eq_0_iff)
  ultimately show ?thesis
    unfolding full_index_def keys_index_upto by simp
qed

text \<open>
  Claim C1, amended.  For every loaded index of fewer than \<open>2 ^ 32\<close> records, the id
  that \<^verbatim>\<open>getmappingid\<close> allocates when the requested name is absent is the smallest
  non-negative integer that is not a key of the index; when the keys are exactly
  \<open>0, ..., size - 1\<close> (no gaps) it is the size of the index.  The index is a
  \<^verbatim>\<open>std::map\<close>: its keys are strictly ascending (\<open>wf_index\<close>).
\<close>

theorem C1_first_free_slot:
  assumes "ToTypeName (FromTypeName tok) = tok"
    and "Read st (FromTypeName tok) = Some idx"
    and "wf_index idx"
    and "name \<notin> sName ` snd ` set idx"
    and "length idx < 2 ^ 32"
  shows "fst (getmappingid FromTypeName ToTypeName Read Save st
                (VSTR tok # VSTR name # rest) False) =
           Inr (id_reply (least_absent idx) False tok) \<and>
         (unat ` fst ` set idx = {..<length idx} \<longrightarrow>
            fst (getmappingid FromTypeName ToTypeName Read Save st
                   (VSTR tok # VSTR name # rest) False) =
              Inr (id_reply (length idx) False tok))"
proof -
  from assms(4) have none: "first_match name idx = None"
    by (simp add: first_match_None_iff)
  have "fst (getmappingid FromTypeName ToTypeName Read Save st
                (VSTR tok # VSTR name # rest) False) =
           Inr (id_reply (unat (spec_free_slot (map fst idx) 0)) False tok)"
    using getmappingid_created [of ToTypeName FromTypeName tok Read st idx name Save rest]
      assms(1,2) none by simp
  also have "unat (spec_free_slot (map fst idx) 0) = least_absent idx"
    using assms(3,5) by (rule free_slot_least_absent)
  finally show ?thesis by (auto dest: least_absent_lessThan)
qed

text \<open>The index with the ids 0, 1 and 3: the allocated id is 2.\<close>

theorem C1_first_free_slot_witness:
  "toToken (toType ''sport'') = ''sport'' \<and>
   loadNamespaceIndex store_013 (toType ''sport'') =
     Some [(0, sport_rec 0 ''Football''), (1, sport_rec 1 ''Tennis''),
           (3, sport_rec 3 ''Golf'')] \<and>
   wf_index [(0, sport_rec 0 ''Football''), (1, sport_rec 1 ''Tennis''),
             (3, sport_rec 3 ''Golf'')] \<and>
   ''Hockey'' \<notin> sName ` snd ` set
     [(0, sport_rec 0 ''Football''), (1, sport_rec 1 ''Tennis''),
      (3, sport_rec 3 ''Golf'')] \<and>
   length [(0 :: 32 word, sport_rec 0 ''Football''), (1, sport_rec 1 ''Tennis''),
           (3, sport_rec 3 ''Golf'')] < 2 ^ 32 \<and>
   fst (getmappingid toType toToken loadNamespaceIndex saveRecord store_013
          [VSTR ''sport'', VSTR ''Hockey''] False) = Inr (id_reply 2 False ''sport'') \<and>
   least_absent [(0, sport_rec 0 ''Football''), (1, sport_rec 1 ''Tennis''),
                 (3, sport_rec 3 ''Golf'')] = 2"
proof -
  let ?idx = "[(0 :: 32 word, sport_rec 0 ''Football''), (1, sport_rec 1 ''Tennis''),
               (3, sport_rec 3 ''Golf'')]"
  have h4: "''Hockey'' \<notin> sName ` snd ` set ?idx" by (simp add: sport_rec_def)
  have h5: "length ?idx < 2 ^ 32" by simp
  have run: "fst (getmappingid toType toToken loadNamespaceIndex saveRecord store_013
          [VSTR ''sport'', VSTR ''Hockey''] False) = Inr (id_reply 2 False ''sport'')"
    using getmappingid_created [of toToken toType "''sport''" loadNamespaceIndex store_013 ?idx
        "''Hockey''" saveRecord "[]"] sport_token store_013_index h4
    by (simp add: first_match_None_iff)
  from C1_first_free_slot [of toToken toType "''sport''" loadNamespaceIndex store_013 ?idx
      "''Hockey''" saveRecord "[]", OF sport_token store_013_index wf_index_013 h4 h5]
  have "fst (getmappingid toType toToken loadNamespaceIndex saveRecord store_013
          [VSTR ''sport'', VSTR ''Hockey''] False) = Inr (id_reply (least_absent ?idx) False ''sport'')"
    by simp
  with run have "least_absent ?idx = 2" by (simp add: id_reply_def)
  with run h4 show ?thesis
    by (simp add: sport_token store_013_index wf_index_013)
qed

text \<open>
  The claim as stated, for every loaded index, fails on the index that holds every
  \<^verbatim>\<open>uint32_t\<close> as a key: the counter \<^verbatim>\<open>nFirstIndexFree\<close> is an \<^verbatim>\<open>unsigned int\<close>,
  wraps around, and the handler allocates the id 0, which is a key of the index,
  while the smallest integer that is not a key, and the size of this index without
  gaps, is \<open>2 ^ 32\<close>.
\<close>

theorem C1_full_index_counterexample:
  "toToken (toType ''sport'') = ''sport'' \<and>
   fixed_Read full_index () (toType ''sport'') = Some full_index \<and>
   wf_index full_index \<and>
   ''b'' \<notin> sName ` snd ` set full_index \<and>
   getmappingid toType toToken (fixed_Read full_index) failing_Save ()
     [VSTR ''sport'', VSTR ''b''] False = (Inr (id_reply 0 False ''sport''), ()) \<and>
   0 \<in> unat ` fst ` set full_index \<and>
   least_absent full_index = 2 ^ 32 \<and>
   length full_index = 2 ^ 32"
proof -
  have h2: "fixed_Read full_index () (toType ''sport'') = Some full_index"
    by (simp add: fixed_Read_def)
  have wf: "wf_index full_index"
    unfolding full_index_def by (rule wf_index_upto) simp
  have nm: "''b'' \<notin> sName ` snd ` set full_index"
    using names_index_upto [of "2 ^ 32"] unfolding full_index_def by auto
  have ids: "unat ` fst ` set full_index = {..<2 ^ 32}"
    unfolding full_index_def by (rule ids_index_upto) simp
  have run: "getmappingid toType toToken (fixed_Read full_index) failing_Save ()
     [VSTR ''sport'', VSTR ''b''] False = (Inr (id_reply 0 False ''sport''), ())"
    using getmappingid_created [of toToken toType "''sport''" "fixed_Read full_index" "()"
        full_index "''b''" failing_Save "[]"] sport_token h2 nm
    by (simp add: first_match_None_iff free_slot_full_index)
  have least: "least_absent full_index = 2 ^ 32"
    using ids by (rule least_absent_lessThan)
  have len: "length full_index = 2 ^ 32"
    unfolding full_index_def by (rule length_index_upto)
  from ids have zero: "0 \<in> unat ` fst ` set full_index" by simp
  from h2 wf nm run zero least len show ?thesis
    by (simp only: sport_token simp_thms)
qed

section \<open>The store of the specification\<close>

text \<open>
  Facts about the index the modelled store serves: it is well formed, every record sits
  under its own id, and a save that succeeds shows up in the next load as one
  \<open>index_put\<close>.
\<close>

lemma map_of_index_put: "map_of (index_put k v idx) = (map_of idx)(k \<mapsto> v)"
  by (induction idx) (auto simp: fun_eq_iff)

lemma index_put_mem: "(k, v) \<in> set (index_put k v idx)"
  by (induction idx) auto

lemma index_put_subset: "set (index_put k v idx) \<subseteq> insert (k, v) (set idx)"
  by (induction idx) auto

lemma index_put_keys: "fst ` set (index_put k v idx) = insert k (fst ` set idx)"
  by (induction idx) auto

lemma wf_index_put: "wf_index idx \<Longrightarrow> wf_index (index_put k v idx)"
proof (induction idx)
  case Nil
  then show ?case by (simp add: wf_index_def)
next
  case (Cons e rest)
  from Cons.prems have above: "\<forall>k'\<in>fst ` set rest. fst e < k'" and wf: "wf_index rest"
    by (auto simp: wf_index_def)
  show ?case
  proof (cases "k < fst e")
    case True
    with Cons.prems above show ?thesis by (auto simp: wf_index_def)
  next
    case False
    show ?thesis
    proof (cases "k = fst e")
      case True
      with Cons.prems show ?thesis by (auto simp: wf_index_def)
    next
      case ne: False
      with False have lt: "fst e < k" by simp
      from wf have "wf_index (index_put k v rest)" by (rule Cons.IH)
      moreover from above lt have "\<forall>k'\<in>fst ` set (index_put k v rest). fst e < k'"
        by (simp add: index_put_keys)
      ultimately show ?thesis using False ne by (simp add: wf_index_def)
    qed
  qed
qed

lemma index_of_snoc: "index_of (recs @ [cm]) = index_put (nId cm) cm (index_of recs)"
  by (simp add: index_of_def)

lemma wf_index_of: "wf_index (index_of recs)"
proof (induction recs rule: rev_induct)
  case Nil
  show ?case by (simp add: index_of_def wf_index_def)
next
  case (snoc cm recs)
  then show ?case by (simp add: index_of_snoc wf_index_put)
qed

lemma index_of_keyed: "it \<in> set (index_of recs) \<Longrightarrow> nId (snd it) = fst it"
proof (induction recs arbitrary: it rule: rev_induct)
  case Nil
  then show ?case by (simp add: index_of_def)
next
  case (snoc cm recs)
  from snoc.prems have "it = (nId cm, cm) \<or> it \<in> set (index_of recs)"
    using index_put_subset [of "nId cm" cm "index_of recs"] by (auto simp: index_of_snoc)
  with snoc.IH show ?case by auto
qed

text \<open>A save that the store accepts shows up in the next load; a refused save changes nothing.\<close>

lemma load_after_save:
  assumes "loadNamespaceIndex st ty = Some idx" and "writable st"
  shows "loadNamespaceIndex (snd (saveRecord st cm)) ty =
           Some (if nMType cm = ty then index_put (nId cm) cm idx else idx)"
  using assms
  by (auto simp: loadNamespaceIndex_def saveRecord_def index_of_snoc split: if_splits)

lemma save_refused: "\<not> writable st \<Longrightarrow> saveRecord st cm = (False, st)"
  by (simp add: saveRecord_def)

text \<open>The save reports success exactly when the store is writable.\<close>

lemma save_reports_writable: "fst (saveRecord st cm) = writable st"
  by (simp add: saveRecord_def)

lemma load_writable_update:
  "loadNamespaceIndex (st\<lparr>writable := b\<rparr>) ty = loadNamespaceIndex st ty"
  by (simp add: loadNamespaceIndex_def)

lemma load_invariants:
  assumes "loadNamespaceIndex st ty = Some idx"
  shows "wf_index idx" and "\<forall>it\<in>set idx. nId (snd it) = fst it"
  using assms
  by (auto simp: loadNamespaceIndex_def wf_index_of split: if_splits dest: index_of_keyed)

section \<open>Round trip and repeated calls, on the store of the specification\<close>

lemma resolve_after_found:
  assumes valid: "ToTypeName (FromTypeName tok) = tok"
    and load: "loadNamespaceIndex st (FromTypeName tok) = Some idx"
    and fm: "first_match name idx = Some it"
    and parse: "stoi s = Some i"
    and same: "unat (word_of_int i :: 32 word) = unat (nId (snd it))"
  shows "getmappingname FromTypeName ToTypeName loadNamespaceIndex stoi st
           (VSTR tok # VSTR s # rest') False = (Inr (name_reply name tok), st)"
proof -
  from fm have mem: "it \<in> set idx" and nm: "sName (snd it) = name"
    using first_match_SomeD [of name idx it] by simp_all
  from load mem have key: "nId (snd it) = fst it"
    using load_invariants(2) [of st "FromTypeName tok" idx] by simp
  from load have "distinct (map fst idx)"
    using load_invariants(1) [of st "FromTypeName tok" idx]
    by (simp add: wf_index_def strict_sorted_iff)
  moreover from mem have "(fst it, snd it) \<in> set idx" by simp
  ultimately have "map_of idx (fst it) = Some (snd it)" by (rule map_of_is_SomeI)
  moreover from same key have "(word_of_int i :: 32 word) = fst it"
    by (simp add: word_unat_eq_iff)
  ultimately show ?thesis
    using getmappingname_eq [of ToTypeName FromTypeName tok loadNamespaceIndex st idx stoi s i rest']
      valid load parse nm by simp
qed

lemma resolve_after_created:
  assumes valid: "ToTypeName (FromTypeName tok) = tok"
    and load: "loadNamespaceIndex st (FromTypeName tok) = Some idx"
    and ok: "writable st"
    and parse: "stoi s = Some i"
    and same: "unat (word_of_int i :: 32 word) = unat f"
  shows "getmappingname FromTypeName ToTypeName loadNamespaceIndex stoi
           (snd (saveRecord st \<lparr>nMType = FromTypeName tok, nId = f, sName = name, nVersion = 1\<rparr>))
           (VSTR tok # VSTR s # rest') False =
         (Inr (name_reply name tok),
          snd (saveRecord st \<lparr>nMType = FromTypeName tok, nId = f, sName = name, nVersion = 1\<rparr>))"
proof -
  let ?cm = "\<lparr>nMType = FromTypeName tok, nId = f, sName = name, nVersion = 1\<rparr>"
  let ?st' = "snd (saveRecord st ?cm)"
  have load': "loadNamespaceIndex ?st' (FromTypeName tok) = Some (index_put f ?cm idx)"
    using load_after_save [OF load ok, of ?cm] by simp
  from same have "(word_of_int i :: 32 word) = f" by (simp add: word_unat_eq_iff)
  then have "map_of (index_put f ?cm idx) (word_of_int i) = Some ?cm"
    by (simp add: map_of_index_put)
  then show ?thesis
    using getmappingname_eq [of ToTypeName FromTypeName tok loadNamespaceIndex ?st'
        "index_put f ?cm idx" stoi s i rest'] valid load' parse
    by simp
qed

text \<open>When \<^verbatim>\<open>getmappingid\<close> returns for a valid token, the index was loaded.\<close>

lemma getmappingid_returns_loaded:
  assumes "ToTypeName (FromTypeName tok) = tok"
    and "getmappingid FromTypeName ToTypeName Read Save st
           (VSTR tok # VSTR name # rest) False = (Inr r, st')"
  shows "\<exists>idx. Read st (FromTypeName tok) = Some idx"
proof (cases "Read st (FromTypeName tok)")
  case None
  with assms show ?thesis by (simp add: getmappingid_def Let_def)
next
  case (Some idx)
  then show ?thesis by simp
qed

text \<open>
  The round trip, from a store whose index loads: it closes when the name was found
  (\<open>e\<close>) or the store accepted the save.
\<close>

lemma round_trip_loaded:
  assumes "ToTypeName (FromTypeName tok) = tok"
    and "loadNamespaceIndex st (FromTypeName tok) = Some idx"
  shows "\<exists>n e st'.
     getmappingid FromTypeName ToTypeName loadNamespaceIndex saveRecord st
       (VSTR tok # VSTR name # rest) False = (Inr (id_reply n e tok), st') \<and>
     (e \<or> writable st \<longrightarrow>
       (\<forall>s i rest'. stoi s = Some i \<and> unat (word_of_int i :: 32 word) = n \<longrightarrow>
          getmappingname FromTypeName ToTypeName loadNamespaceIndex stoi st'
            (VSTR tok # VSTR s # rest') False = (Inr (name_reply name tok), st')))"
proof (cases "first_match name idx")
  case None
  let ?f = "spec_free_slot (map fst idx) 0"
  let ?st' = "snd (saveRecord st
      \<lparr>nMType = FromTypeName tok, nId = ?f, sName = name, nVersion = 1\<rparr>)"
  have "getmappingid FromTypeName ToTypeName loadNamespaceIndex saveRecord st
       (VSTR tok # VSTR name # rest) False = (Inr (id_reply (unat ?f) False tok), ?st')"
    using assms None by (rule getmappingid_created)
  moreover have "False \<or> writable st \<longrightarrow>
      (\<forall>s i rest'. stoi s = Some i \<and> unat (word_of_int i :: 32 word) = unat ?f \<longrightarrow>
        getmappingname FromTypeName ToTypeName loadNamespaceIndex stoi ?st'
          (VSTR tok # VSTR s # rest') False = (Inr (name_reply name tok), ?st'))"
    using resolve_after_created [where ToTypeName = ToTypeName and FromTypeName = FromTypeName
        and tok = tok and st = st and idx = idx and stoi = stoi and f = ?f and name = name]
      assms by blast
  ultimately show ?thesis by blast
next
  case (Some it)
  have "getmappingid FromTypeName ToTypeName loadNamespaceIndex saveRecord st
       (VSTR tok # VSTR name # rest) False = (Inr (id_reply (unat (nId (snd it))) True tok), st)"
    using assms Some by (rule getmappingid_found)
  moreover have "\<forall>s i rest'. stoi s = Some i \<and>
        unat (word_of_int i :: 32 word) = unat (nId (snd it)) \<longrightarrow>
        getmappingname FromTypeName ToTypeName loadNamespaceIndex stoi st
          (VSTR tok # VSTR s # rest') False = (Inr (name_reply name tok), st)"
    using resolve_after_found [where ToTypeName = ToTypeName and FromTypeName = FromTypeName
        and tok = tok and st = st and idx = idx and stoi = stoi and it = it and name = name]
      assms Some by blast
  ultimately show ?thesis by blast
qed

text \<open>
  Claim C2, amended.  On the store as the specification describes it, whose save ends
  in success or in Failure, for every valid namespace token and every name: whenever
  \<^verbatim>\<open>getmappingid\<close> returns (and it does return whenever the index of the type loads),
  what it returns is a reply with an id; and if the name was found (\<^verbatim>\<open>"exists": true\<close>)
  or the store accepted the save of the new record, then \<^verbatim>\<open>getmappingname\<close>, run on
  the store the first call left behind and asked for that id (through any string that
  \<^verbatim>\<open>std::stoi\<close> parses to an \<^verbatim>\<open>int\<close> whose conversion to \<^verbatim>\<open>uint32_t\<close> is the id),
  succeeds and returns the name that was requested.  Nothing is said here about the
  resolve after a save that failed.
\<close>

theorem C2_round_trip:
  assumes "ToTypeName (FromTypeName tok) = tok"
  shows "(loadNamespaceIndex st (FromTypeName tok) \<noteq> None \<longrightarrow>
            (\<exists>r st'. getmappingid FromTypeName ToTypeName loadNamespaceIndex saveRecord st
                        (VSTR tok # VSTR name # rest) False = (Inr r, st'))) \<and>
         (\<forall>r st'.
            getmappingid FromTypeName ToTypeName loadNamespaceIndex saveRecord st
              (VSTR tok # VSTR name # rest) False = (Inr r, st') \<longrightarrow>
            (\<exists>n e. r = id_reply n e tok \<and>
               (e \<or> writable st \<longrightarrow>
                 (\<forall>s i rest'. stoi s = Some i \<and> unat (word_of_int i :: 32 word) = n \<longrightarrow>
                    getmappingname FromTypeName ToTypeName loadNamespaceIndex stoi st'
                      (VSTR tok # VSTR s # rest') False = (Inr (name_reply name tok), st')))))"
proof (intro conjI impI allI)
  assume "loadNamespaceIndex st (FromTypeName tok) \<noteq> None"
  then obtain idx where "loadNamespaceIndex st (FromTypeName tok) = Some idx" by auto
  with assms show "\<exists>r st'. getmappingid FromTypeName ToTypeName loadNamespaceIndex saveRecord st
                        (VSTR tok # VSTR name # rest) False = (Inr r, st')"
    using round_trip_loaded [where ToTypeName = ToTypeName and FromTypeName = FromTypeName
        and tok = tok and st = st and idx = idx and name = name and rest = rest and stoi = stoi]
    by blast
next
  fix r st'
  assume ret: "getmappingid FromTypeName ToTypeName loadNamespaceIndex saveRecord st
              (VSTR tok # VSTR name # rest) False = (Inr r, st')"
  with assms obtain idx where "loadNamespaceIndex st (FromTypeName tok) = Some idx"
    using getmappingid_returns_loaded [where ToTypeName = ToTypeName
        and FromTypeName = FromTypeName and tok = tok and Read = loadNamespaceIndex
        and Save = saveRecord and st = st and name = name and rest = rest and r = r and st' = st']
    by blast
  with assms obtain n e st'' where
    run: "getmappingid FromTypeName ToTypeName loadNamespaceIndex saveRecord st
       (VSTR tok # VSTR name # rest) False = (Inr (id_reply n e tok), st'')"
    and res: "e \<or> writable st \<longrightarrow>
       (\<forall>s i rest'. stoi s = Some i \<and> unat (word_of_int i :: 32 word) = n \<longrightarrow>
        getmappingname FromTypeName ToTypeName loadNamespaceIndex stoi st''
          (VSTR tok # VSTR s # rest') False = (Inr (name_reply name tok), st''))"
    using round_trip_loaded [where ToTypeName = ToTypeName and FromTypeName = FromTypeName
        and tok = tok and st = st and idx = idx and name = name and rest = rest and stoi = stoi]
    by blast
  from run ret have "r = id_reply n e tok" and "st'' = st'" by simp_all
  with res show "\<exists>n e. r = id_reply n e tok \<and>
               (e \<or> writable st \<longrightarrow>
                 (\<forall>s i rest'. stoi s = Some i \<and> unat (word_of_int i :: 32 word) = n \<longrightarrow>
                    getmappingname FromTypeName ToTypeName loadNamespaceIndex stoi st'
                      (VSTR tok # VSTR s # rest') False = (Inr (name_reply name tok), st')))"
    by blast
qed

text \<open>
  The index 0, 1, 3 in a store that accepts saves: a new name gets the id 2, and the
  id 2 resolves to it.
\<close>

theorem C2_round_trip_witness:
  "toToken (toType ''sport'') = ''sport'' \<and>
   writable store_013 \<and>
   map_of [(''2'', 2)] ''2'' = Some (2 :: int) \<and>
   getmappingid toType toToken loadNamespaceIndex saveRecord store_013
     [VSTR ''sport'', VSTR ''Curling''] False =
     (Inr (id_reply 2 False ''sport''),
      store_013\<lparr>saved := saved store_013 @ [sport_rec 2 ''Curling'']\<rparr>) \<and>
   getmappingname toType toToken loadNamespaceIndex (map_of [(''2'', 2)])
     (store_013\<lparr>saved := saved store_013 @ [sport_rec 2 ''Curling'']\<rparr>)
     [VSTR ''sport'', VSTR ''2''] False =
     (Inr (name_reply ''Curling'' ''sport''),
      store_013\<lparr>saved := saved store_013 @ [sport_rec 2 ''Curling'']\<rparr>)"
proof -
  let ?idx = "[(0 :: 32 word, sport_rec 0 ''Football''), (1, sport_rec 1 ''Tennis''),
               (3, sport_rec 3 ''Golf'')]"
  let ?st1 = "store_013\<lparr>saved := saved store_013 @ [sport_rec 2 ''Curling'']\<rparr>"
  let ?stoi = "map_of [(''2'', 2 :: int)]"
  have parse: "?stoi ''2'' = Some 2" by simp
  have absent: "first_match ''Curling'' ?idx = None"
    by (simp add: first_match_def sport_rec_def)
  have run: "getmappingid toType toToken loadNamespaceIndex saveRecord store_013
     [VSTR ''sport'', VSTR ''Curling''] False = (Inr (id_reply 2 False ''sport''), ?st1)"
    using getmappingid_created [of toToken toType "''sport''" loadNamespaceIndex store_013 ?idx
        "''Curling''" saveRecord "[]"] sport_token store_013_index absent
    by (simp add: toType_sport saveRecord_def writable_store_013 sport_rec_def)
  note trip = C2_round_trip [of toToken toType "''sport''" store_013 "''Curling''" "[]" ?stoi,
      OF sport_token, THEN conjunct2, rule_format, OF run]
  from trip obtain n e where r: "id_reply 2 False ''sport'' = id_reply n e ''sport''"
    and res: "e \<or> writable store_013 \<longrightarrow>
       (\<forall>s i rest'. ?stoi s = Some i \<and> unat (word_of_int i :: 32 word) = n \<longrightarrow>
        getmappingname toType toToken loadNamespaceIndex ?stoi ?st1
          (VSTR ''sport'' # VSTR s # rest') False = (Inr (name_reply ''Curling'' ''sport''), ?st1))"
    by blast
  from r have n: "n = 2" by (simp add: id_reply_def)
  have "unat (word_of_int 2 :: 32 word) = 2" by simp
  with res parse n writable_store_013
  have "getmappingname toType toToken loadNamespaceIndex ?stoi ?st1
          [VSTR ''sport'', VSTR ''2''] False = (Inr (name_reply ''Curling'' ''sport''), ?st1)"
    by blast
  with run parse show ?thesis
    by (simp add: sport_token writable_store_013)
qed

text \<open>
  The claim as stated, for every valid namespace token and every name, fails when the
  store refuses the save: \<^verbatim>\<open>getmappingid\<close> drops the result of \<^verbatim>\<open>Save\<close> (line 92) and
  still answers with the new id 2 and \<^verbatim>\<open>"exists": false\<close>, the store holds no record
  of that id, and \<^verbatim>\<open>getmappingname\<close> asked for the id 2 throws \<open>MappingNotFound\<close>.
\<close>

theorem C2_refused_save_counterexample:
  "toToken (toType ''sport'') = ''sport'' \<and>
   map_of [(''2'', 2)] ''2'' = Some (2 :: int) \<and>
   saveRecord (store_013\<lparr>writable := False\<rparr>) (sport_rec 2 ''Curling'') =
     (False, store_013\<lparr>writable := False\<rparr>) \<and>
   getmappingid toType toToken loadNamespaceIndex saveRecord (store_013\<lparr>writable := False\<rparr>)
     [VSTR ''sport'', VSTR ''Curling''] False =
     (Inr (id_reply 2 False ''sport''), store_013\<lparr>writable := False\<rparr>) \<and>
   getmappingname toType toToken loadNamespaceIndex (map_of [(''2'', 2)])
     (store_013\<lparr>writable := False\<rparr>)
     [VSTR ''sport'', VSTR ''2''] False =
     (Inl MappingNotFound, store_013\<lparr>writable := False\<rparr>)"
proof -
  let ?idx = "[(0 :: 32 word, sport_rec 0 ''Football''), (1, sport_rec 1 ''Tennis''),
               (3, sport_rec 3 ''Golf'')]"
  let ?ro = "store_013\<lparr>writable := False\<rparr>"
  let ?stoi = "map_of [(''2'', 2 :: int)]"
  have load: "loadNamespaceIndex ?ro (toType ''sport'') = Some ?idx"
    by (simp add: load_writable_update store_013_index)
  have refused: "saveRecord ?ro (sport_rec 2 ''Curling'') = (False, ?ro)"
    by (simp add: save_refused)
  have absent: "first_match ''Curling'' ?idx = None"
    by (simp add: first_match_def sport_rec_def)
  have run: "getmappingid toType toToken loadNamespaceIndex saveRecord ?ro
     [VSTR ''sport'', VSTR ''Curling''] False = (Inr (id_reply 2 False ''sport''), ?ro)"
    using getmappingid_created [of toToken toType "''sport''" loadNamespaceIndex ?ro ?idx
        "''Curling''" saveRecord "[]"] sport_token load absent
    by (simp add: save_refused)
  have parse: "?stoi ''2'' = Some 2" by simp
  have "getmappingname toType toToken loadNamespaceIndex ?stoi ?ro
     [VSTR ''sport'', VSTR ''2''] False = (Inl MappingNotFound, ?ro)"
    using getmappingname_eq [of toToken toType "''sport''" loadNamespaceIndex ?ro ?idx
        ?stoi "''2''" 2 "[]"] sport_token load parse
    by simp
  with run refused parse show ?thesis by (simp add: sport_token)
qed

text \<open>After a new name was put into the index, the scan finds exactly that record.\<close>

lemma first_match_after_put:
  assumes "first_match name idx = None" and "sName cm = name"
  shows "\<exists>it. first_match name (index_put f cm idx) = Some it \<and> snd it = cm"
proof -
  have "name \<in> sName ` snd ` set (index_put f cm idx)"
    using index_put_mem [of f cm idx] assms(2) by force
  then obtain it where it: "first_match name (index_put f cm idx) = Some it"
    using first_match_None_iff [of name "index_put f cm idx"]
    by (cases "first_match name (index_put f cm idx)") auto
  then have mem: "it \<in> set (index_put f cm idx)" and nm: "sName (snd it) = name"
    using first_match_SomeD [of name "index_put f cm idx" it] by simp_all
  from mem have "it = (f, cm) \<or> it \<in> set idx"
    using index_put_subset [of f cm idx] by auto
  moreover from assms(1) nm have "it \<notin> set idx"
    by (auto simp: first_match_None_iff)
  ultimately have "snd it = cm" by auto
  with it show ?thesis by blast
qed

text \<open>
  Two calls in a row, from a store whose index loads.  The second call returns the id
  of the first; it finds the name when the first call found it or the store accepted
  the save.
\<close>

lemma twice_loaded:
  assumes "ToTypeName (FromTypeName tok) = tok"
    and "loadNamespaceIndex st (FromTypeName tok) = Some idx"
  shows "\<exists>n e2 st'.
     getmappingid FromTypeName ToTypeName loadNamespaceIndex saveRecord st
       (VSTR tok # VSTR name # rest) False =
       (Inr (id_reply n (name \<in> sName ` snd ` set idx) tok), st') \<and>
     getmappingid FromTypeName ToTypeName loadNamespaceIndex saveRecord st'
       (VSTR tok # VSTR name # rest) False = (Inr (id_reply n e2 tok), st') \<and>
     (name \<in> sName ` snd ` set idx \<or> writable st \<longrightarrow> e2)"
proof (cases "first_match name idx")
  case None
  let ?f = "spec_free_slot (map fst idx) 0"
  let ?cm = "\<lparr>nMType = FromTypeName tok, nId = ?f, sName = name, nVersion = 1\<rparr>"
  let ?st' = "snd (saveRecord st ?cm)"
  from None have absent: "name \<notin> sName ` snd ` set idx"
    by (simp add: first_match_None_iff)
  have first: "getmappingid FromTypeName ToTypeName loadNamespaceIndex saveRecord st
       (VSTR tok # VSTR name # rest) False = (Inr (id_reply (unat ?f) False tok), ?st')"
    using assms None by (rule getmappingid_created)
  show ?thesis
  proof (cases "writable st")
    case True
    have load': "loadNamespaceIndex ?st' (FromTypeName tok) = Some (index_put ?f ?cm idx)"
      using load_after_save [OF assms(2) True, of ?cm] by simp
    from None obtain it where it: "first_match name (index_put ?f ?cm idx) = Some it"
      and cm: "snd it = ?cm"
      using first_match_after_put [of name idx ?cm ?f] by auto
    have "getmappingid FromTypeName ToTypeName loadNamespaceIndex saveRecord ?st'
         (VSTR tok # VSTR name # rest) False =
         (Inr (id_reply (unat (nId (snd it))) True tok), ?st')"
      using assms(1) load' it by (rule getmappingid_found)
    with cm have "getmappingid FromTypeName ToTypeName loadNamespaceIndex saveRecord ?st'
         (VSTR tok # VSTR name # rest) False = (Inr (id_reply (unat ?f) True tok), ?st')"
      by simp
    with first absent show ?thesis by auto
  next
    case False
    then have same: "?st' = st" by (simp add: save_refused)
    with first have "getmappingid FromTypeName ToTypeName loadNamespaceIndex saveRecord ?st'
         (VSTR tok # VSTR name # rest) False = (Inr (id_reply (unat ?f) False tok), ?st')"
      by simp
    with first absent False show ?thesis by auto
  qed
next
  case (Some it)
  then have present: "name \<in> sName ` snd ` set idx"
    using first_match_None_iff [of name idx] by simp
  have "getmappingid FromTypeName ToTypeName loadNamespaceIndex saveRecord st
       (VSTR tok # VSTR name # rest) False = (Inr (id_reply (unat (nId (snd it))) True tok), st)"
    using assms Some by (rule getmappingid_found)
  with present show ?thesis by auto
qed

text \<open>
  Claim C3, amended.  On the store as the specification describes it, whose save ends
  in success or in Failure, for every valid namespace token and every name: whenever a
  first call of \<^verbatim>\<open>getmappingid\<close> returns (and it does return whenever the index of the
  type loads), a second call with the same arguments, on the store the first left
  behind, answers with the same id; the first call answers \<^verbatim>\<open>"exists": false\<close>
  (\<open>created = true\<close>) exactly when no record of the index had the name before the call;
  and the second call answers \<^verbatim>\<open>"exists": true\<close> (\<open>created = false\<close>) whenever the
  first call found the name or the store accepted its save of the new record.  Nothing
  is said here about the flag of the second call after a save that failed.
\<close>

theorem C3_idempotent:
  assumes "ToTypeName (FromTypeName tok) = tok"
  shows "(loadNamespaceIndex st (FromTypeName tok) \<noteq> None \<longrightarrow>
            (\<exists>r st'. getmappingid FromTypeName ToTypeName loadNamespaceIndex saveRecord st
                        (VSTR tok # VSTR name # rest) False = (Inr r, st'))) \<and>
         (\<forall>r st'.
            getmappingid FromTypeName ToTypeName loadNamespaceIndex saveRecord st
              (VSTR tok # VSTR name # rest) False = (Inr r, st') \<longrightarrow>
            (\<exists>n e2 idx. loadNamespaceIndex st (FromTypeName tok) = Some idx \<and>
               r = id_reply n (name \<in> sName ` snd ` set idx) tok \<and>
               getmappingid FromTypeName ToTypeName loadNamespaceIndex saveRecord st'
                 (VSTR tok # VSTR name # rest) False = (Inr (id_reply n e2 tok), st') \<and>
               (name \<in> sName ` snd ` set idx \<or> writable st \<longrightarrow> e2)))"
proof (intro conjI impI allI)
  assume "loadNamespaceIndex st (FromTypeName tok) \<noteq> None"
  then obtain idx where "loadNamespaceIndex st (FromTypeName tok) = Some idx" by auto
  with assms show "\<exists>r st'. getmappingid FromTypeName ToTypeName loadNamespaceIndex saveRecord st
                        (VSTR tok # VSTR name # rest) False = (Inr r, st')"
    using twice_loaded [where ToTypeName = ToTypeName and FromTypeName = FromTypeName
        and tok = tok and st = st and idx = idx and name = name and rest = rest]
    by blast
next
  fix r st'
  assume ret: "getmappingid FromTypeName ToTypeName loadNamespaceIndex saveRecord st
              (VSTR tok # VSTR name # rest) False = (Inr r, st')"
  with assms obtain idx where load: "loadNamespaceIndex st (FromTypeName tok) = Some idx"
    using getmappingid_returns_loaded [where ToTypeName = ToTypeName
        and FromTypeName = FromTypeName and tok = tok and Read = loadNamespaceIndex
        and Save = saveRecord and st = st and name = name and rest = rest and r = r and st' = st']
    by blast
  with assms obtain n e2 st'' where
    first: "getmappingid FromTypeName ToTypeName loadNamespaceIndex saveRecord st
       (VSTR tok # VSTR name # rest) False =
       (Inr (id_reply n (name \<in> sName ` snd ` set idx) tok), st'')"
    and second: "getmappingid FromTypeName ToTypeName loadNamespaceIndex saveRecord st''
       (VSTR tok # VSTR name # rest) False = (Inr (id_reply n e2 tok), st'')"
    and flag: "name \<in> sName ` snd ` set idx \<or> writable st \<longrightarrow> e2"
    using twice_loaded [where ToTypeName = ToTypeName and FromTypeName = FromTypeName
        and tok = tok and st = st and idx = idx and name = name and rest = rest]
    by blast
  from first ret have "r = id_reply n (name \<in> sName ` snd ` set idx) tok" and "st'' = st'"
    by simp_all
  with second flag load show "\<exists>n e2 idx. loadNamespaceIndex st (FromTypeName tok) = Some idx \<and>
               r = id_reply n (name \<in> sName ` snd ` set idx) tok \<and>
               getmappingid FromTypeName ToTypeName loadNamespaceIndex saveRecord st'
                 (VSTR tok # VSTR name # rest) False = (Inr (id_reply n e2 tok), st') \<and>
               (name \<in> sName ` snd ` set idx \<or> writable st \<longrightarrow> e2)"
    by blast
qed

text \<open>
  A new name in a store that accepts saves: created at the first call, found at the
  second.
\<close>

theorem C3_idempotent_witness:
  "toToken (toType ''sport'') = ''sport'' \<and>
   writable store_013 \<and>
   getmappingid toType toToken loadNamespaceIndex saveRecord store_013
     [VSTR ''sport'', VSTR ''Squash''] False =
     (Inr (id_reply 2 False ''sport''),
      store_013\<lparr>saved := saved store_013 @ [sport_rec 2 ''Squash'']\<rparr>) \<and>
   getmappingid toType toToken loadNamespaceIndex saveRecord
     (store_013\<lparr>saved := saved store_013 @ [sport_rec 2 ''Squash'']\<rparr>)
     [VSTR ''sport'', VSTR ''Squash''] False =
     (Inr (id_reply 2 True ''sport''),
      store_013\<lparr>saved := saved store_013 @ [sport_rec 2 ''Squash'']\<rparr>)"
proof -
  let ?idx = "[(0 :: 32 word, sport_rec 0 ''Football''), (1, sport_rec 1 ''Tennis''),
               (3, sport_rec 3 ''Golf'')]"
  let ?st1 = "store_013\<lparr>saved := saved store_013 @ [sport_rec 2 ''Squash'']\<rparr>"
  have absent: "first_match ''Squash'' ?idx = None"
    by (simp add: first_match_def sport_rec_def)
  have run: "getmappingid toType toToken loadNamespaceIndex saveRecord store_013
     [VSTR ''sport'', VSTR ''Squash''] False = (Inr (id_reply 2 False ''sport''), ?st1)"
    using getmappingid_created [of toToken toType "''sport''" loadNamespaceIndex store_013 ?idx
        "''Squash''" saveRecord "[]"] sport_token store_013_index absent
    by (simp add: toType_sport saveRecord_def writable_store_013 sport_rec_def)
  note twice = C3_idempotent [of toToken toType "''sport''" store_013 "''Squash''" "[]",
      OF sport_token, THEN conjunct2, rule_format, OF run]
  from twice obtain n e2 idx where
    "loadNamespaceIndex store_013 (toType ''sport'') = Some idx" and
    r: "id_reply 2 False ''sport'' = id_reply n (''Squash'' \<in> sName ` snd ` set idx) ''sport''"
    and second: "getmappingid toType toToken loadNamespaceIndex saveRecord ?st1
       [VSTR ''sport'', VSTR ''Squash''] False = (Inr (id_reply n e2 ''sport''), ?st1)"
    and flag: "''Squash'' \<in> sName ` snd ` set idx \<or> writable store_013 \<longrightarrow> e2"
    by blast
  from r have "n = 2" by (simp add: id_reply_def)
  moreover from flag writable_store_013 have e2 by simp
  ultimately show ?thesis using second run
    by (simp add: sport_token writable_store_013)
qed

text \<open>
  The claim as stated fails in two ways.  For a name the index already holds, the
  first call finds it and answers \<^verbatim>\<open>"exists": true\<close>, that is \<open>created = false\<close>.  And
  when the store refuses the save of a new name, \<^verbatim>\<open>getmappingid\<close> drops the result of
  \<^verbatim>\<open>Save\<close> (line 92) and returns the store it was given, so the second call is the
  same call on the same store: it does not find the name either and answers
  \<^verbatim>\<open>"exists": false\<close>, that is \<open>created = true\<close>, a second time.
\<close>

theorem C3_flags_counterexample:
  "toToken (toType ''sport'') = ''sport'' \<and>
   loadNamespaceIndex store_013 (toType ''sport'') =
     Some [(0, sport_rec 0 ''Football''), (1, sport_rec 1 ''Tennis''),
           (3, sport_rec 3 ''Golf'')] \<and>
   getmappingid toType toToken loadNamespaceIndex saveRecord store_013
     [VSTR ''sport'', VSTR ''Football''] False =
     (Inr (id_reply 0 True ''sport''), store_013) \<and>
   id_reply 0 True ''sport'' \<noteq> id_reply 0 False ''sport'' \<and>
   getmappingid toType toToken loadNamespaceIndex saveRecord (store_013\<lparr>writable := False\<rparr>)
     [VSTR ''sport'', VSTR ''Squash''] False =
     (Inr (id_reply 2 False ''sport''), store_013\<lparr>writable := False\<rparr>) \<and>
   id_reply 2 False ''sport'' \<noteq> id_reply 2 True ''sport''"
proof -
  let ?idx = "[(0 :: 32 word, sport_rec 0 ''Football''), (1, sport_rec 1 ''Tennis''),
               (3, sport_rec 3 ''Golf'')]"
  let ?ro = "store_013\<lparr>writable := False\<rparr>"
  have present: "first_match ''Football'' ?idx = Some (0, sport_rec 0 ''Football'')"
    by (simp add: first_match_def sport_rec_def)
  have known: "getmappingid toType toToken loadNamespaceIndex saveRecord store_013
     [VSTR ''sport'', VSTR ''Football''] False = (Inr (id_reply 0 True ''sport''), store_013)"
    using getmappingid_found [of toToken toType "''sport''" loadNamespaceIndex store_013 ?idx
        "''Football''" "(0, sport_rec 0 ''Football'')" saveRecord "[]"]
      sport_token store_013_index present
    by (simp add: sport_rec_def)
  have load: "loadNamespaceIndex ?ro (toType ''sport'') = Some ?idx"
    by (simp add: load_writable_update store_013_index)
  have absent: "first_match ''Squash'' ?idx = None"
    by (simp add: first_match_def sport_rec_def)
  have refused: "getmappingid toType toToken loadNamespaceIndex saveRecord ?ro
     [VSTR ''sport'', VSTR ''Squash''] False = (Inr (id_reply 2 False ''sport''), ?ro)"
    using getmappingid_created [of toToken toType "''sport''" loadNamespaceIndex ?ro ?idx
        "''Squash''" saveRecord "[]"] sport_token load absent
    by (simp add: save_refused)
  from known refused show ?thesis
    by (simp add: sport_token store_013_index id_reply_def)
qed

section \<open>Further properties of the handlers\<close>

text \<open>
  With \<^verbatim>\<open>fHelp\<close> set, or with fewer than two parameters, both handlers throw the usage
  text and leave the store alone.
\<close>

theorem help_on_request_or_short_params:
  "getmappingid FromTypeName ToTypeName Read Save st params True = (Inl HelpMessage, st) \<and>
   getmappingid FromTypeName ToTypeName Read Save st [] False = (Inl HelpMessage, st) \<and>
   getmappingid FromTypeName ToTypeName Read Save st [p] False = (Inl HelpMessage, st) \<and>
   getmappingname FromTypeName ToTypeName Read stoi st params True = (Inl HelpMessage, st) \<and>
   getmappingname FromTypeName ToTypeName Read stoi st [] False = (Inl HelpMessage, st) \<and>
   getmappingname FromTypeName ToTypeName Read stoi st [p] False = (Inl HelpMessage, st)"
  by (simp add: getmappingid_def getmappingname_def)

text \<open>
  \<^verbatim>\<open>getmappingname\<close> converts the id (line 133) before it looks at the mapping type
  (line 138): an id string that \<^verbatim>\<open>std::stoi\<close> rejects ends the call with the exception
  of \<^verbatim>\<open>std::stoi\<close>, whatever the namespace token is.
\<close>

theorem stoi_failure_comes_first:
  assumes "stoi s = None"
  shows "getmappingname FromTypeName ToTypeName Read stoi st (VSTR tok # VSTR s # rest) False =
           (Inl StoiFailure, st)"
  using assms by (simp add: getmappingname_def)

theorem stoi_failure_comes_first_witness:
  "map_of [] ''seven'' = (None :: int option) \<and>
   toToken (toType ''not-a-real-type'') \<noteq> ''not-a-real-type'' \<and>
   getmappingname toType toToken loadNamespaceIndex (map_of []) store_013
     [VSTR ''not-a-real-type'', VSTR ''seven''] False = (Inl StoiFailure, store_013)"
proof -
  have h: "map_of [] ''seven'' = (None :: int option)" by simp
  from stoi_failure_comes_first [of "map_of []" "''seven''" toType toToken loadNamespaceIndex
      store_013 "''not-a-real-type''" "[]", OF h]
  show ?thesis by (simp add: toType_def)
qed

text \<open>
  \<^verbatim>\<open>getmappingid\<close> drops what \<^verbatim>\<open>Save\<close> returns (line 92): its reply is the same for
  any two save operations, so a save that reports failure still ends in the reply of a
  created mapping.
\<close>

theorem reply_ignores_save:
  "fst (getmappingid FromTypeName ToTypeName Read Save st params fHelp) =
   fst (getmappingid FromTypeName ToTypeName Read Save' st params fHelp)"
  by (simp add: getmappingid_def Let_def split: option.splits)

end
